theory Spec2Isabelle
  imports Main "HOL-Library.Word" "HOL-Library.Char_ord" "HOL-Library.List_Lexorder"
begin

section \<open>Data model of \<open>main.go\<close>\<close>

text \<open>
  The program terminates abnormally in three ways: \<open>log.Fatal\<close> (exit status 1), a
  run-time panic (a nil dereference), and an \<open>error\<close> value returned to \<open>app.Run\<close>.
\<close>

datatype error = Fatal | Panic | Returned

text \<open>\<open>os.FileInfo\<close>, as far as the program reads it.\<close>

record fileinfo =
  fiName :: string
  fiSize :: int
  fiModTime :: int
  fiIsDir :: bool

text \<open>\<open>*s3.Object\<close>: every field the program reads is a pointer, \<open>None\<close> is nil.\<close>

record s3object =
  s3Key :: "string option"
  s3Size :: "int option"
  s3LastModified :: "int option"

text \<open>
  \<open>fsnotify.Event\<close>. \<open>fsnotify.Op\<close> is a \<open>uint32\<close> bit mask; the library declares
  \<open>Create\<close>, \<open>Write\<close>, \<open>Remove\<close>, \<open>Rename\<close>, \<open>Chmod\<close> as \<open>1 << iota\<close>.
\<close>

datatype event = Event (evName: string) (evOp: "32 word")

definition Create :: "32 word" where "Create = 1"
definition Write :: "32 word" where "Write = 2"
definition Remove :: "32 word" where "Remove = 4"
definition Rename :: "32 word" where "Rename = 8"
definition Chmod :: "32 word" where "Chmod = 16"

text \<open>The dynamic types that \<open>file.Object\<close> (an \<open>interface{}\<close>) holds.\<close>

datatype object = NoObject | FileInfoObject fileinfo | S3Object s3object

text \<open>
  \<open>type file struct\<close>. \<open>Size\<close> is a Go \<open>int\<close>; the program only stores and compares
  it, so it is an \<open>int\<close> here. \<open>LastModified\<close> is a \<open>time.Time\<close>, with 0 the zero time.
\<close>

record file_t =
  Name :: string
  Path :: string
  LastModified :: int
  Size :: int
  Object :: object

definition zero_file :: file_t where
  "zero_file = \<lparr>Name = [], Path = [], LastModified = 0, Size = 0, Object = NoObject\<rparr>"

text \<open>The dynamic types that \<open>location.Service\<close> holds: nil, \<open>*s3.S3\<close>, \<open>os.FileInfo\<close>.\<close>

datatype service = NoService | S3Service | FileInfoService fileinfo

datatype LocationType = Source | Destination

text \<open>
  \<open>type location struct\<close>. \<open>Destination\<close> is a pointer: an address of the store below,
  or \<open>None\<close> for nil. \<open>Manifest\<close> is the Go map; \<open>buildManifest\<close> replaces the nil map
  of a fresh location by an empty one before any other function touches it, so the
  nil map is not told apart from the empty one.
\<close>

record location =
  Service :: service
  Bucket :: string
  Path :: string
  Manifest :: "string \<rightharpoonup> file_t"
  Type :: LocationType
  Destination :: "nat option"

definition zero_location :: location where
  "zero_location = \<lparr>Service = NoService, Bucket = [], Path = [], Manifest = Map.empty,
     Type = Source, Destination = None\<rparr>"

text \<open>
  Calls that leave the process. Every one is appended to the \<open>trace\<close> of the state when
  it is made, so the trace is what the backends see.
\<close>

datatype call =
    OsOpen string
  | OsStat string
  | OsLstat string
  | OsCreate string
  | IoCopy string string
  | OsRemove string
  | IoutilReadDir string
  | PutObject string string "string option"
  | DeleteObject string string
  | ListObjectsV2Pages string string
  | NewSession
  | NewWatcher

text \<open>
  What \<open>ioutil.ReadDir\<close> answers along the recursion of \<open>buildDirManifest\<close>: an error, or
  the entries of the directory, each directory entry with the answer for that directory.
\<close>

datatype dirlisting = ReadDirError | Listing "(fileinfo \<times> dirlisting) list"

text \<open>
  The world outside the process. Every answer may depend on the calls made so far.
  \<open>errs\<close> says whether a call returns an error; \<open>os_Stat\<close> and \<open>os_Lstat\<close> answer
  \<open>None\<close> for an error; \<open>ListObjects\<close> answers the pages handed to the callback.
  The \<open>path/filepath\<close> and \<open>net/url\<close> functions are library code and are taken as
  they are; \<open>url_Parse\<close> answers the scheme and the host.
\<close>

record env =
  errs :: "call list \<Rightarrow> call \<Rightarrow> bool"
  os_Stat :: "call list \<Rightarrow> string \<Rightarrow> fileinfo option"
  os_Lstat :: "call list \<Rightarrow> string \<Rightarrow> fileinfo option"
  ioutil_ReadDir :: "call list \<Rightarrow> string \<Rightarrow> dirlisting"
  ListObjects :: "call list \<Rightarrow> string \<Rightarrow> string \<Rightarrow> s3object list list"
  url_Parse :: "string \<Rightarrow> (string \<times> string) option"
  IsInteractive :: bool
  filepath_Base :: "string \<Rightarrow> string"
  filepath_Dir :: "string \<Rightarrow> string"
  filepath_Clean :: "string \<Rightarrow> string"
  range_order :: "(string \<rightharpoonup> file_t) \<Rightarrow> string list"

text \<open>
  The state of the process: the two locations allocated by \<open>getLocations\<close> (address 0
  is \<open>results[0]\<close>, address 1 is \<open>results[1]\<close>), the calls made so far, the paths
  registered with the watcher, and the package variables \<open>noop\<close> and \<open>recurse\<close>.
\<close>

record state =
  heap :: "nat \<Rightarrow> location"
  trace :: "call list"
  watched :: "string list"
  noop :: bool
  recurse :: bool

definition init_state :: state where
  "init_state = \<lparr>heap = (\<lambda>_. zero_location), trace = [], watched = [],
     noop = False, recurse = False\<rparr>"

section \<open>Helpers\<close>

text \<open>
  A run that terminates abnormally leaves the way it did and the calls it made; a run
  that goes on leaves its result.
\<close>

type_synonym failure = "error \<times> call list"

definition failed :: "error \<Rightarrow> state \<Rightarrow> failure + 'a" where
  "failed e s = Inl (e, trace s)"

definition andThen :: "failure + 'a \<Rightarrow> ('a \<Rightarrow> failure + 'b) \<Rightarrow> failure + 'b" where
  "andThen r f = (case r of Inl e \<Rightarrow> Inl e | Inr x \<Rightarrow> f x)"

definition logged :: "call \<Rightarrow> state \<Rightarrow> state" where
  "logged c s = s\<lparr>trace := trace s @ [c]\<rparr>"

text \<open>A call whose error the program answers with \<open>log.Fatal\<close>.\<close>

definition extern :: "env \<Rightarrow> call \<Rightarrow> state \<Rightarrow> failure + state" where
  "extern E c s =
     (if errs E (trace s) c then failed Fatal (logged c s) else Inr (logged c s))"

definition set_Manifest :: "nat \<Rightarrow> (string \<rightharpoonup> file_t) \<Rightarrow> state \<Rightarrow> state" where
  "set_Manifest a m s = s\<lparr>heap := (heap s)(a := (heap s a)\<lparr>Manifest := m\<rparr>)\<rparr>"

text \<open>\<open>strings.HasPrefix\<close> and \<open>strings.TrimPrefix\<close>.\<close>

definition HasPrefix :: "string \<Rightarrow> string \<Rightarrow> bool" where
  "HasPrefix s p = (length s \<ge> length p \<and> take (length p) s = p)"

definition TrimPrefix :: "string \<Rightarrow> string \<Rightarrow> string" where
  "TrimPrefix s p = (if HasPrefix s p then drop (length p) s else s)"

section \<open>\<open>file.Open\<close>, \<open>location.Put\<close>, \<open>location.Delete\<close>\<close>

text \<open>
  \<open>Open\<close> returns the reader: the path opened, or \<open>None\<close> for the nil reader that every
  object other than an \<open>os.FileInfo\<close> gets.
\<close>

definition Open :: "env \<Rightarrow> file_t \<Rightarrow> state \<Rightarrow> failure + (string option \<times> state)" where
  "Open E f s =
     (case Object f of
        FileInfoObject _ \<Rightarrow>
          andThen (extern E (OsOpen (file_t.Path f @ ''/'' @ Name f)) s)
            (\<lambda>s'. Inr (Some (file_t.Path f @ ''/'' @ Name f), s'))
      | _ \<Rightarrow> Inr (None, s))"

text \<open>
  \<open>Put\<close> on the location at pointer \<open>p\<close>. Only the \<open>*s3.S3\<close> branch stores \<open>f\<close> in the
  Manifest. In the \<open>os.FileInfo\<close> branch \<open>io.Copy\<close> from the nil reader panics.
\<close>

definition Put :: "env \<Rightarrow> nat option \<Rightarrow> string \<Rightarrow> file_t \<Rightarrow> state \<Rightarrow> failure + state" where
  "Put E p key f s =
     andThen (Open E f s) (\<lambda>(reader, s1).
       case p of
         None \<Rightarrow> failed Panic s1
       | Some a \<Rightarrow>
          (case Service (heap s1 a) of
             S3Service \<Rightarrow>
               andThen (extern E (PutObject (Bucket (heap s1 a)) key reader) s1)
                 (\<lambda>s2. Inr (set_Manifest a ((Manifest (heap s2 a))(key \<mapsto> f)) s2))
           | FileInfoService _ \<Rightarrow>
               andThen (extern E (OsCreate (location.Path (heap s1 a) @ ''/'' @ key)) s1)
                 (\<lambda>s2. case reader of
                     None \<Rightarrow> failed Panic s2
                   | Some r \<Rightarrow>
                       extern E (IoCopy (location.Path (heap s1 a) @ ''/'' @ key) r) s2)
           | NoService \<Rightarrow> failed Fatal s1))"

definition Delete :: "env \<Rightarrow> nat option \<Rightarrow> string \<Rightarrow> state \<Rightarrow> failure + state" where
  "Delete E p key s =
     (case p of
        None \<Rightarrow> failed Panic s
      | Some a \<Rightarrow>
          andThen
            (case Service (heap s a) of
               S3Service \<Rightarrow> extern E (DeleteObject (Bucket (heap s a)) key) s
             | FileInfoService _ \<Rightarrow>
                 extern E (OsRemove (location.Path (heap s a) @ ''/'' @ key)) s
             | NoService \<Rightarrow> failed Fatal s)
            (\<lambda>s1. Inr (set_Manifest a ((Manifest (heap s1 a))(key := None)) s1)))"

section \<open>\<open>oneTimeSync\<close>\<close>

text \<open>
  A \<open>range\<close> over a Go map visits the keys in an order the run time chooses:
  \<open>range_order E m\<close> is that order for the map \<open>m\<close>. A key removed from the map before
  the loop reaches it is not visited.
\<close>

fun push_loop :: "env \<Rightarrow> nat \<Rightarrow> nat \<Rightarrow> string list \<Rightarrow> state \<Rightarrow> failure + state" where
  "push_loop E source destination [] s = Inr s"
| "push_loop E source destination (key # keys) s =
     (case Manifest (heap s source) key of
        None \<Rightarrow> push_loop E source destination keys s
      | Some f \<Rightarrow>
         (case Manifest (heap s destination) key of
            None \<Rightarrow>
              andThen (Put E (Some destination) key f s)
                (push_loop E source destination keys)
          | Some destF \<Rightarrow>
              if Size f \<noteq> Size destF
              then andThen (Put E (Some destination) key f s)
                     (push_loop E source destination keys)
              else push_loop E source destination keys s))"

fun delete_loop :: "env \<Rightarrow> nat \<Rightarrow> nat \<Rightarrow> string list \<Rightarrow> state \<Rightarrow> failure + state" where
  "delete_loop E source destination [] s = Inr s"
| "delete_loop E source destination (key # keys) s =
     (case Manifest (heap s destination) key of
        None \<Rightarrow> delete_loop E source destination keys s
      | Some _ \<Rightarrow>
         (case Manifest (heap s source) key of
            None \<Rightarrow>
              andThen (Delete E (Some destination) key s)
                (delete_loop E source destination keys)
          | Some _ \<Rightarrow> delete_loop E source destination keys s))"

text \<open>\<open>del\<close> is \<open>c.Bool("delete")\<close>.\<close>

definition oneTimeSync :: "env \<Rightarrow> bool \<Rightarrow> nat \<Rightarrow> nat \<Rightarrow> state \<Rightarrow> failure + state" where
  "oneTimeSync E del source destination s =
     andThen
       (push_loop E source destination (range_order E (Manifest (heap s source))) s)
       (\<lambda>s1. if del
          then delete_loop E source destination
                 (range_order E (Manifest (heap s1 destination))) s1
          else Inr s1)"

section \<open>\<open>constructFile\<close> and \<open>location.handleEvent\<close>\<close>

datatype input = EventInput event | S3ObjectInput s3object | OtherInput

text \<open>
  The \<open>fsnotify.Event\<close> branch fills in \<open>Name\<close>, \<open>Path\<close> and \<open>Object\<close> only. The
  \<open>*s3.Object\<close> branch dereferences three pointers.
\<close>

definition constructFile :: "env \<Rightarrow> input \<Rightarrow> state \<Rightarrow> failure + (file_t \<times> state)" where
  "constructFile E i s =
     (case i of
        EventInput ev \<Rightarrow>
          (case os_Stat E (trace s) (evName ev) of
             None \<Rightarrow> failed Fatal (logged (OsStat (evName ev)) s)
           | Some fi \<Rightarrow>
               Inr (zero_file\<lparr>Name := filepath_Base E (evName ev),
                               file_t.Path := filepath_Dir E (evName ev),
                               Object := FileInfoObject fi\<rparr>,
                    logged (OsStat (evName ev)) s))
      | S3ObjectInput ob \<Rightarrow>
          (case (s3Key ob, s3Size ob, s3LastModified ob) of
             (Some k, Some sz, Some t) \<Rightarrow>
               Inr (zero_file\<lparr>Name := filepath_Base E k,
                               file_t.Path := filepath_Dir E k,
                               Size := sz,
                               Object := S3Object ob,
                               LastModified := t\<rparr>, s)
           | _ \<Rightarrow> failed Panic s)
      | OtherInput \<Rightarrow> Inr (zero_file, s))"

text \<open>\<open>handleEvent\<close> on the location at address \<open>a\<close>. The \<open>switch\<close> has no default.\<close>

definition handleEvent :: "env \<Rightarrow> nat \<Rightarrow> string \<Rightarrow> event \<Rightarrow> state \<Rightarrow> failure + state" where
  "handleEvent E a key ev s =
     (if Type (heap s a) = Source then
        (if evOp ev = Create then
           andThen (constructFile E (EventInput ev) s) (\<lambda>(f, s1).
             let s2 = set_Manifest a ((Manifest (heap s1 a))(key \<mapsto> f)) s1
             in Put E (Destination (heap s2 a)) key f s2)
         else if evOp ev = Write then
           andThen (constructFile E (EventInput ev) s) (\<lambda>(f, s1).
             Put E (Destination (heap s1 a)) key f s1)
         else if evOp ev = Remove then
           andThen (Delete E (Destination (heap s a)) key s) (\<lambda>s1.
             Inr (set_Manifest a ((Manifest (heap s1 a))(key := None)) s1))
         else Inr s)
      else failed Fatal s)"

section \<open>Relative keys\<close>

text \<open>
  The three places that derive a relative key from a backend-native name: the loop of
  \<open>Watch\<close>, \<open>buildDirManifest\<close>, and the callback of \<open>buildManifest\<close> for a bucket.
\<close>

definition watch_key :: "string \<Rightarrow> string \<Rightarrow> string" where
  "watch_key root name = TrimPrefix name root"

definition dir_key :: "env \<Rightarrow> string \<Rightarrow> string \<Rightarrow> string" where
  "dir_key E root name = filepath_Clean E (TrimPrefix name root)"

definition s3_key :: "string \<Rightarrow> string \<Rightarrow> string" where
  "s3_key root name = ''/'' @ TrimPrefix name root"

section \<open>\<open>buildManifest\<close> and \<open>buildDirManifest\<close>\<close>

fun buildDirManifest :: "env \<Rightarrow> nat \<Rightarrow> string \<Rightarrow> dirlisting \<Rightarrow> state \<Rightarrow> failure + state"
  and buildDirFiles ::
    "env \<Rightarrow> nat \<Rightarrow> string \<Rightarrow> (fileinfo \<times> dirlisting) list \<Rightarrow> state \<Rightarrow> failure + state"
where
  "buildDirManifest E a dir ReadDirError s = failed Fatal (logged (IoutilReadDir dir) s)"
| "buildDirManifest E a dir (Listing files) s =
     buildDirFiles E a dir files (logged (IoutilReadDir dir) s)"
| "buildDirFiles E a dir [] s = Inr s"
| "buildDirFiles E a dir ((fi, sub) # files) s =
     (if fiIsDir fi then
        andThen (buildDirManifest E a (dir @ ''/'' @ fiName fi) sub s)
          (buildDirFiles E a dir files)
      else
        buildDirFiles E a dir files
          (set_Manifest a
             ((Manifest (heap s a))
                (dir_key E (location.Path (heap s a)) (dir @ ''/'' @ fiName fi) \<mapsto>
                   \<lparr>Name = fiName fi, Path = dir, LastModified = fiModTime fi,
                    Size = fiSize fi, Object = FileInfoObject fi\<rparr>)) s))"

text \<open>The callback of \<open>ListObjectsV2Pages\<close> on one page, and on the pages in turn.\<close>

fun list_page :: "env \<Rightarrow> nat \<Rightarrow> s3object list \<Rightarrow> state \<Rightarrow> failure + state" where
  "list_page E a [] s = Inr s"
| "list_page E a (ob # obs) s =
     andThen (constructFile E (S3ObjectInput ob) s) (\<lambda>(f, s1).
       case s3Key ob of
         None \<Rightarrow> failed Panic s1
       | Some k \<Rightarrow>
           list_page E a obs
             (set_Manifest a
                ((Manifest (heap s1 a))(s3_key (location.Path (heap s1 a)) k \<mapsto> f)) s1))"

fun list_pages :: "env \<Rightarrow> nat \<Rightarrow> s3object list list \<Rightarrow> state \<Rightarrow> failure + state" where
  "list_pages E a [] s = Inr s"
| "list_pages E a (page # pages) s = andThen (list_page E a page s) (list_pages E a pages)"

definition buildManifest :: "env \<Rightarrow> nat \<Rightarrow> state \<Rightarrow> failure + state" where
  "buildManifest E a s =
     (let s0 = set_Manifest a Map.empty s in
      case Service (heap s0 a) of
        S3Service \<Rightarrow>
          andThen
            (list_pages E a
               (ListObjects E (trace s0) (Bucket (heap s0 a)) (location.Path (heap s0 a))) s0)
            (extern E (ListObjectsV2Pages (Bucket (heap s0 a)) (location.Path (heap s0 a))))
      | FileInfoService _ \<Rightarrow>
          buildDirManifest E a (location.Path (heap s0 a))
            (ioutil_ReadDir E (trace s0) (location.Path (heap s0 a))) s0
      | NoService \<Rightarrow> failed Fatal s0)"

section \<open>\<open>location.Watch\<close>\<close>

text \<open>
  The loop of \<open>Watch\<close> never ends; \<open>watch_loop\<close> runs it on the events delivered so far.
  \<open>os.Lstat\<close>'s error is dropped, and \<open>fi.IsDir()\<close> on the nil \<open>fi\<close> panics.
\<close>

fun watch_loop :: "env \<Rightarrow> nat \<Rightarrow> event list \<Rightarrow> state \<Rightarrow> failure + state" where
  "watch_loop E a [] s = Inr s"
| "watch_loop E a (ev # evs) s =
     (case os_Lstat E (trace s) (evName ev) of
        None \<Rightarrow> failed Panic (logged (OsLstat (evName ev)) s)
      | Some fi \<Rightarrow>
          (let s1 = logged (OsLstat (evName ev)) s in
           if fiIsDir fi then
             watch_loop E a evs
               (if recurse s1 then s1\<lparr>watched := watched s1 @ [evName ev]\<rparr> else s1)
           else
             andThen
               (handleEvent E a (watch_key (location.Path (heap s1 a)) (evName ev)) ev s1)
               (watch_loop E a evs)))"

definition Watch :: "env \<Rightarrow> nat \<Rightarrow> event list \<Rightarrow> state \<Rightarrow> failure + state" where
  "Watch E a evs s =
     (if errs E (trace s) NewWatcher then failed Panic (logged NewWatcher s)
      else
        let s1 = (logged NewWatcher s)\<lparr>watched := watched s @ [location.Path (heap s a)]\<rparr> in
        if recurse s1 then
          (case ioutil_ReadDir E (trace s1) (location.Path (heap s1 a)) of
             ReadDirError \<Rightarrow>
               failed Fatal (logged (IoutilReadDir (location.Path (heap s1 a))) s1)
           | Listing files \<Rightarrow>
               watch_loop E a evs
                 ((logged (IoutilReadDir (location.Path (heap s1 a))) s1)
                    \<lparr>watched := watched s1 @
                       map (\<lambda>(fi, _). location.Path (heap s1 a) @ ''/'' @ fiName fi)
                         (filter (\<lambda>(fi, _). fiIsDir fi) files)\<rparr>))
        else watch_loop E a evs s1)"

section \<open>\<open>getLocations\<close>, \<open>sync\<close> and \<open>main\<close>\<close>

text \<open>
  \<open>*cli.Context\<close> of the \<open>sync\<close> command: the positional arguments and the four flags
  the command declares. \<open>c.Bool\<close> of a name that no flag has is \<open>false\<close>; the
  application declares no global flag.
\<close>

record Context =
  Args :: "string list"
  flag_noop :: bool
  flag_recursive :: bool
  flag_delete :: bool
  flag_one_time :: bool

definition c_Bool :: "Context \<Rightarrow> string \<Rightarrow> bool" where
  "c_Bool c name =
     (if name = ''noop'' \<or> name = ''n'' then flag_noop c
      else if name = ''recursive'' \<or> name = ''r'' then flag_recursive c
      else if name = ''delete'' \<or> name = ''d'' then flag_delete c
      else if name = ''one-time'' then flag_one_time c
      else False)"

definition c_GlobalBool :: "Context \<Rightarrow> string \<Rightarrow> bool" where
  "c_GlobalBool c name = False"

text \<open>The body of the loop of \<open>getLocations\<close> for index \<open>i\<close> and argument \<open>param\<close>.\<close>

definition getLocation :: "env \<Rightarrow> nat \<Rightarrow> string \<Rightarrow> state \<Rightarrow> failure + state" where
  "getLocation E i param s =
     (let loc = zero_location\<lparr>location.Path := param,
                  Type := (if i = 0 then Source
                           else if i = 1 then LocationType.Destination else Source)\<rparr>
      in case url_Parse E param of
           None \<Rightarrow> failed Returned s
         | Some (scheme, host) \<Rightarrow>
             if scheme = [] then
               (case os_Lstat E (trace s) param of
                  None \<Rightarrow> failed Fatal (logged (OsLstat param) s)
                | Some fi \<Rightarrow>
                    Inr ((logged (OsLstat param) s)
                           \<lparr>heap := (heap s)(i := loc\<lparr>Service := FileInfoService fi\<rparr>)\<rparr>))
             else if scheme = ''s3'' then
               andThen (extern E NewSession s) (\<lambda>s1.
                 Inr (s1\<lparr>heap := (heap s1)(i := loc\<lparr>Bucket := host, Service := S3Service\<rparr>)\<rparr>))
             else failed Returned s)"

definition getLocations :: "env \<Rightarrow> Context \<Rightarrow> state \<Rightarrow> failure + (nat \<times> nat \<times> state)" where
  "getLocations E c s =
     (case Args c of
        [p0, p1] \<Rightarrow>
          andThen (getLocation E 0 p0 (s\<lparr>heap := (heap s)(0 := zero_location, 1 := zero_location)\<rparr>))
            (\<lambda>s1. andThen (getLocation E 1 p1 s1)
              (\<lambda>s2. Inr (0, 1, s2\<lparr>heap := (heap s2)(0 := (heap s2 0)\<lparr>Destination := Some 1\<rparr>)\<rparr>)))
      | _ \<Rightarrow> failed Fatal s)"

text \<open>
  \<open>sync\<close>, with the events the watcher delivers. \<open>listManifest\<close> only writes to the log
  and is left out.
\<close>

definition sync :: "env \<Rightarrow> Context \<Rightarrow> event list \<Rightarrow> state \<Rightarrow> failure + state" where
  "sync E c evs s =
     andThen (getLocations E c s) (\<lambda>(source, destination, s1).
       andThen (buildManifest E source s1) (\<lambda>s2.
         andThen (buildManifest E destination s2) (\<lambda>s3.
           andThen (oneTimeSync E (c_Bool c ''delete'') source destination s3)
             (Watch E source evs))))"

text \<open>The \<open>Before\<close> hook of the command, and \<open>main\<close> running the command.\<close>

definition Before :: "env \<Rightarrow> Context \<Rightarrow> state \<Rightarrow> failure + state" where
  "Before E c s =
     (if \<not> IsInteractive E \<and> \<not> c_GlobalBool c ''assume-yes'' then failed Returned s
      else
        let s1 = (if c_Bool c ''noop'' then s\<lparr>noop := True\<rparr> else s);
            s2 = (if c_Bool c ''recurse'' then s1\<lparr>recurse := True\<rparr> else s1)
        in Inr s2)"

definition main :: "env \<Rightarrow> Context \<Rightarrow> event list \<Rightarrow> failure + state" where
  "main E c evs = andThen (Before E c init_state) (sync E c evs)"

section \<open>A concrete run\<close>

text \<open>
  A source directory \<open>/tmp/src\<close> with the files \<open>a\<close> (10 bytes) and \<open>b\<close> (5 bytes), and
  a destination holding \<open>b\<close> (5 bytes) and \<open>c\<close> (1 byte): once as the directory
  \<open>/tmp/dst\<close>, once as a bucket. In \<open>ex_env\<close> no call fails, every \<open>os.Stat\<close> answers a
  regular file of 10 bytes, and a \<open>range\<close> visits the keys in alphabetical order.
\<close>

definition ex_fi :: "string \<Rightarrow> int \<Rightarrow> fileinfo" where
  "ex_fi n sz = \<lparr>fiName = n, fiSize = sz, fiModTime = 0, fiIsDir = False\<rparr>"

definition ex_file :: "string \<Rightarrow> string \<Rightarrow> int \<Rightarrow> file_t" where
  "ex_file dir n sz =
     \<lparr>Name = n, Path = dir, LastModified = 0, Size = sz, Object = FileInfoObject (ex_fi n sz)\<rparr>"

definition ex_source :: location where
  "ex_source =
     \<lparr>Service = FileInfoService \<lparr>fiName = ''src'', fiSize = 0, fiModTime = 0, fiIsDir = True\<rparr>,
      Bucket = [], Path = ''/tmp/src'',
      Manifest = [''/a'' \<mapsto> ex_file ''/tmp/src'' ''a'' 10, ''/b'' \<mapsto> ex_file ''/tmp/src'' ''b'' 5],
      Type = Source, Destination = Some 1\<rparr>"

definition ex_dir_destination :: location where
  "ex_dir_destination =
     \<lparr>Service = FileInfoService \<lparr>fiName = ''dst'', fiSize = 0, fiModTime = 0, fiIsDir = True\<rparr>,
      Bucket = [], Path = ''/tmp/dst'',
      Manifest = [''/b'' \<mapsto> ex_file ''/tmp/dst'' ''b'' 5, ''/c'' \<mapsto> ex_file ''/tmp/dst'' ''c'' 1],
      Type = LocationType.Destination, Destination = None\<rparr>"

definition ex_s3_destination :: location where
  "ex_s3_destination =
     \<lparr>Service = S3Service, Bucket = ''bucket'', Path = ''s3://bucket/'',
      Manifest = [''/b'' \<mapsto> ex_file ''/tmp/dst'' ''b'' 5, ''/c'' \<mapsto> ex_file ''/tmp/dst'' ''c'' 1],
      Type = LocationType.Destination, Destination = None\<rparr>"

definition ex_state :: "location \<Rightarrow> state" where
  "ex_state dst =
     \<lparr>heap = (\<lambda>_. zero_location)(0 := ex_source, 1 := dst), trace = [], watched = [],
      noop = False, recurse = False\<rparr>"

definition ex_env :: env where
  "ex_env =
     \<lparr>errs = (\<lambda>_ _. False),
      os_Stat = (\<lambda>_ n. Some (ex_fi ''x'' 10)),
      os_Lstat = (\<lambda>_ n. Some (ex_fi ''x'' 10)),
      ioutil_ReadDir = (\<lambda>_ _. Listing []),
      ListObjects = (\<lambda>_ _ _. []),
      url_Parse = (\<lambda>_. Some ([], [])),
      IsInteractive = True,
      filepath_Base = (\<lambda>p. if p = ''/tmp/src/x'' then ''x'' else p),
      filepath_Dir = (\<lambda>p. if p = ''/tmp/src/x'' then ''/tmp/src'' else p),
      filepath_Clean = (\<lambda>p. p),
      range_order = (\<lambda>m. filter (\<lambda>k. m k \<noteq> None) [''/a'', ''/b'', ''/c''])\<rparr>"

text \<open>
  Two runs of the whole program on two directories, the command line giving the source
  and the destination and no flag.

  In \<open>ex_gone_env\<close> both \<open>/tmp/src\<close> and \<open>/tmp/dst\<close> list the file \<open>a\<close> (10 bytes) when
  the Manifests are built; afterwards \<open>/tmp/src/a\<close> is removed, so \<open>os.Lstat\<close> of it
  fails.

  In \<open>ex_bar_env\<close> the source is given as \<open>/tmp/bar/\<close>, with the separator at the end,
  and both \<open>/tmp/bar/\<close> and \<open>/tmp/dst\<close> list the file \<open>foo\<close> (3 bytes). The only name
  \<open>filepath.Clean\<close> is applied to in this run is \<open>/foo\<close>, which it leaves as it is.
\<close>

definition ex_dir_info :: "string \<Rightarrow> fileinfo" where
  "ex_dir_info n = \<lparr>fiName = n, fiSize = 0, fiModTime = 0, fiIsDir = True\<rparr>"

definition ex_context :: "string \<Rightarrow> string \<Rightarrow> Context" where
  "ex_context src dst =
     \<lparr>Args = [src, dst], flag_noop = False, flag_recursive = False, flag_delete = False,
      flag_one_time = False\<rparr>"

definition ex_gone_env :: env where
  "ex_gone_env =
     ex_env\<lparr>os_Lstat := (\<lambda>_ n. if n = ''/tmp/src/a'' then None else Some (ex_dir_info n)),
            ioutil_ReadDir := (\<lambda>_ p. if p = ''/tmp/src'' \<or> p = ''/tmp/dst''
                                     then Listing [(ex_fi ''a'' 10, ReadDirError)]
                                     else ReadDirError)\<rparr>"

definition ex_bar_env :: env where
  "ex_bar_env =
     ex_env\<lparr>os_Stat := (\<lambda>_ n. Some (ex_fi ''foo'' 3)),
            os_Lstat := (\<lambda>_ n. if n = ''/tmp/bar/foo'' then Some (ex_fi ''foo'' 3)
                                else Some (ex_dir_info n)),
            ioutil_ReadDir := (\<lambda>_ p. if p = ''/tmp/bar/'' \<or> p = ''/tmp/dst''
                                     then Listing [(ex_fi ''foo'' 3, ReadDirError)]
                                     else ReadDirError),
            filepath_Base := (\<lambda>p. if p = ''/tmp/bar/foo'' then ''foo'' else p),
            filepath_Dir := (\<lambda>p. if p = ''/tmp/bar/foo'' then ''/tmp/bar'' else p)\<rparr>"

text \<open>
  What a run leaves behind: the calls it made, whether it failed or not, and the Manifest
  entry and the key set at an address.
\<close>

definition trace_after :: "failure + state \<Rightarrow> call list" where
  "trace_after r = (case r of Inl (e, t) \<Rightarrow> t | Inr s \<Rightarrow> trace s)"

definition entry_after :: "nat \<Rightarrow> string \<Rightarrow> failure + state \<Rightarrow> failure + file_t option" where
  "entry_after a key r = map_sum id (\<lambda>s. Manifest (heap s a) key) r"

definition keys_after :: "nat \<Rightarrow> failure + state \<Rightarrow> failure + string set" where
  "keys_after a r = map_sum id (\<lambda>s. dom (Manifest (heap s a))) r"

section \<open>Notions the properties are stated with\<close>

text \<open>
  The condition under which the first loop of \<open>oneTimeSync\<close> calls \<open>Put\<close> for a key:
  the source has it, and the destination has not, or has it with another size.
\<close>

definition pushed :: "(string \<rightharpoonup> file_t) \<Rightarrow> (string \<rightharpoonup> file_t) \<Rightarrow> string \<Rightarrow> bool" where
  "pushed A B key =
     (case A key of
        None \<Rightarrow> False
      | Some f \<Rightarrow> (case B key of None \<Rightarrow> True | Some destF \<Rightarrow> Size f \<noteq> Size destF))"

text \<open>A \<open>range\<close> over a map visits every key of the map, each once.\<close>

definition range_ok :: "env \<Rightarrow> bool" where
  "range_ok E =
     (\<forall>m. finite (dom m) \<longrightarrow> set (range_order E m) = dom m \<and> distinct (range_order E m))"

text \<open>The one call that \<open>Delete\<close> makes on a location that has a service.\<close>

definition delete_call :: "location \<Rightarrow> string \<Rightarrow> call" where
  "delete_call l key =
     (case Service l of
        S3Service \<Rightarrow> DeleteObject (Bucket l) key
      | _ \<Rightarrow> OsRemove (location.Path l @ ''/'' @ key))"


section \<open>Basic facts\<close>

lemma andThen_simps [simp]:
  "andThen (Inl e) f = Inl e"
  "andThen (Inr x) f = f x"
  by (simp_all add: andThen_def)

lemma failed_simps [simp]:
  "failed e s \<noteq> Inr x"
  "Inr x \<noteq> failed e s"
  "andThen (failed e s) f = failed e s"
  "failed e (set_Manifest a m s) = failed e s"
  "failed e (s\<lparr>noop := b\<rparr>) = failed e s"
  by (simp_all add: failed_def set_Manifest_def)

lemma andThen_eq_Inr: "andThen r f = Inr y \<longleftrightarrow> (\<exists>x. r = Inr x \<and> f x = Inr y)"
  by (cases r) simp_all

lemma logged_simps [simp]:
  "heap (logged c s) = heap s"
  "trace (logged c s) = trace s @ [c]"
  "watched (logged c s) = watched s"
  "noop (logged c s) = noop s"
  "recurse (logged c s) = recurse s"
  by (simp_all add: logged_def)

lemma trace_after_simps [simp]:
  "trace_after (Inr s) = trace s"
  "trace_after (failed e s) = trace s"
  by (simp_all add: trace_after_def failed_def)

lemma set_Manifest_simps [simp]:
  "trace (set_Manifest a m s) = trace s"
  "watched (set_Manifest a m s) = watched s"
  "noop (set_Manifest a m s) = noop s"
  "recurse (set_Manifest a m s) = recurse s"
  "Manifest (heap (set_Manifest a m s) a) = m"
  "b \<noteq> a \<Longrightarrow> heap (set_Manifest a m s) b = heap s b"
  "Service (heap (set_Manifest a m s) b) = Service (heap s b)"
  "Bucket (heap (set_Manifest a m s) b) = Bucket (heap s b)"
  "location.Path (heap (set_Manifest a m s) b) = location.Path (heap s b)"
  "Type (heap (set_Manifest a m s) b) = Type (heap s b)"
  "Destination (heap (set_Manifest a m s) b) = Destination (heap s b)"
  by (simp_all add: set_Manifest_def)

lemma extern_eq_Inr: "extern E c s = Inr s' \<longleftrightarrow> \<not> errs E (trace s) c \<and> s' = logged c s"
  by (auto simp: extern_def)

lemma Open_heap: "Open E f s = Inr (r, s1) \<Longrightarrow> heap s1 = heap s"
  by (auto simp: Open_def andThen_eq_Inr extern_eq_Inr split: object.splits)

lemma Put_Some_eq:
  "Put E (Some d) key f s = Inr s' \<longleftrightarrow>
     (\<exists>reader s1. Open E f s = Inr (reader, s1) \<and>
        (case Service (heap s1 d) of
           S3Service \<Rightarrow>
             \<not> errs E (trace s1) (PutObject (Bucket (heap s1 d)) key reader) \<and>
             s' = set_Manifest d ((Manifest (heap s1 d))(key \<mapsto> f))
                    (logged (PutObject (Bucket (heap s1 d)) key reader) s1)
         | FileInfoService _ \<Rightarrow>
             \<not> errs E (trace s1) (OsCreate (location.Path (heap s1 d) @ ''/'' @ key)) \<and>
             (\<exists>r. reader = Some r \<and>
               \<not> errs E (trace s1 @ [OsCreate (location.Path (heap s1 d) @ ''/'' @ key)])
                    (IoCopy (location.Path (heap s1 d) @ ''/'' @ key) r) \<and>
               s' = logged (IoCopy (location.Path (heap s1 d) @ ''/'' @ key) r)
                      (logged (OsCreate (location.Path (heap s1 d) @ ''/'' @ key)) s1))
         | NoService \<Rightarrow> False))"
proof (cases "Open E f s")
  case (Inl e)
  then show ?thesis by (simp add: Put_def)
next
  case (Inr x)
  obtain reader s1 where x: "x = (reader, s1)" by (cases x)
  show ?thesis
  proof (cases "Service (heap s1 d)")
    case NoService
    with Inr x show ?thesis by (simp add: Put_def)
  next
    case S3Service
    with Inr x show ?thesis
      by (auto simp: Put_def andThen_eq_Inr extern_eq_Inr)
  next
    case (FileInfoService fi)
    with Inr x show ?thesis
      by (cases reader) (auto simp: Put_def andThen_eq_Inr extern_eq_Inr)
  qed
qed

lemma Put_None: "Put E None key f s \<noteq> Inr s'"
  by (cases "Open E f s") (auto simp: Put_def)

lemma Put_heap:
  assumes "Put E p key f s = Inr s'"
  shows "\<exists>d. p = Some d \<and>
           heap s' = (if Service (heap s d) = S3Service
                      then (heap s)(d := (heap s d)\<lparr>Manifest := (Manifest (heap s d))(key \<mapsto> f)\<rparr>)
                      else heap s)"
proof (cases p)
  case None
  with assms show ?thesis by (simp add: Put_None)
next
  case (Some d)
  with assms have "Put E (Some d) key f s = Inr s'" by simp
  then obtain reader s1 where o: "Open E f s = Inr (reader, s1)"
    and c: "case Service (heap s1 d) of
           S3Service \<Rightarrow>
             \<not> errs E (trace s1) (PutObject (Bucket (heap s1 d)) key reader) \<and>
             s' = set_Manifest d ((Manifest (heap s1 d))(key \<mapsto> f))
                    (logged (PutObject (Bucket (heap s1 d)) key reader) s1)
         | FileInfoService _ \<Rightarrow>
             \<not> errs E (trace s1) (OsCreate (location.Path (heap s1 d) @ ''/'' @ key)) \<and>
             (\<exists>r. reader = Some r \<and>
               \<not> errs E (trace s1 @ [OsCreate (location.Path (heap s1 d) @ ''/'' @ key)])
                    (IoCopy (location.Path (heap s1 d) @ ''/'' @ key) r) \<and>
               s' = logged (IoCopy (location.Path (heap s1 d) @ ''/'' @ key) r)
                      (logged (OsCreate (location.Path (heap s1 d) @ ''/'' @ key)) s1))
         | NoService \<Rightarrow> False"
    unfolding Put_Some_eq by blast
  from o have h: "heap s1 = heap s" by (rule Open_heap)
  from c h Some show ?thesis
    by (cases "Service (heap s d)") (auto simp: set_Manifest_def)
qed

lemma Delete_heap:
  assumes "Delete E p key s = Inr s'"
  shows "\<exists>d. p = Some d \<and>
           heap s' = (heap s)(d := (heap s d)\<lparr>Manifest := (Manifest (heap s d))(key := None)\<rparr>)"
  using assms
  by (auto simp: Delete_def andThen_eq_Inr extern_eq_Inr set_Manifest_def
           split: option.splits service.splits)

lemma constructFile_event:
  assumes "constructFile E (EventInput ev) s = Inr (f, s1)"
  shows "Size f = 0 \<and> heap s1 = heap s"
  using assms by (auto simp: constructFile_def zero_file_def split: option.splits)

lemma Open_set_Manifest:
  "Open E f (set_Manifest a m s) =
     andThen (Open E f s) (\<lambda>(r, s'). Inr (r, set_Manifest a m s'))"
  by (simp add: Open_def extern_def logged_def set_Manifest_def failed_def split: object.splits)

lemma extern_set_Manifest:
  "extern E c (set_Manifest a m s) = andThen (extern E c s) (\<lambda>s'. Inr (set_Manifest a m s'))"
  by (simp add: extern_def logged_def set_Manifest_def failed_def)

lemma logged_set_Manifest:
  "logged c (set_Manifest a m s) = set_Manifest a m (logged c s)"
  by (simp add: logged_def set_Manifest_def)

lemma set_Manifest_commute:
  "d \<noteq> a \<Longrightarrow> set_Manifest d m' (set_Manifest a m s) = set_Manifest a m (set_Manifest d m' s)"
  by (simp add: set_Manifest_def fun_upd_twist)

lemma set_Manifest_twice [simp]:
  "set_Manifest a m (set_Manifest a m' s) = set_Manifest a m s"
  by (simp add: set_Manifest_def)

lemma set_Manifest_same [simp]: "set_Manifest a (Manifest (heap s a)) s = s"
  by (simp add: set_Manifest_def)

lemma Put_set_Manifest_other:
  assumes "p \<noteq> Some a"
  shows "Put E p key f (set_Manifest a m s) =
           andThen (Put E p key f s) (\<lambda>s'. Inr (set_Manifest a m s'))"
proof (cases "Open E f s")
  case (Inl e)
  then show ?thesis by (simp add: Put_def Open_set_Manifest)
next
  case (Inr x)
  obtain reader s1 where x: "x = (reader, s1)" by (cases x)
  show ?thesis
  proof (cases p)
    case None
    with Inr x show ?thesis by (simp add: Put_def Open_set_Manifest)
  next
    case (Some d)
    with assms have da: "d \<noteq> a" by simp
    show ?thesis
    proof (cases "Service (heap s1 d)")
      case NoService
      with Inr x Some da show ?thesis by (simp add: Put_def Open_set_Manifest)
    next
      case S3Service
      with Inr x Some da show ?thesis
        by (simp add: Put_def Open_set_Manifest extern_def set_Manifest_commute
              logged_set_Manifest)
    next
      case (FileInfoService fi)
      with Inr x Some da show ?thesis
        by (cases reader)
           (simp_all add: Put_def Open_set_Manifest extern_def logged_set_Manifest)
    qed
  qed
qed

lemma Put_heap_other:
  assumes "Put E p key f s = Inr s'" and "p \<noteq> Some a"
  shows "heap s' a = heap s a"
  using Put_heap [OF assms(1)] assms(2) by (auto split: if_splits)

lemma constructFile_event_cases:
  "constructFile E (EventInput ev) s = failed Fatal (logged (OsStat (evName ev)) s) \<or>
   (\<exists>f. constructFile E (EventInput ev) s = Inr (f, logged (OsStat (evName ev)) s))"
  by (simp add: constructFile_def split: option.splits)

lemma Delete_Some_eq:
  "Delete E (Some d) key s =
     (case Service (heap s d) of
        NoService \<Rightarrow> failed Fatal s
      | S3Service \<Rightarrow>
          if errs E (trace s) (DeleteObject (Bucket (heap s d)) key)
          then failed Fatal (logged (DeleteObject (Bucket (heap s d)) key) s)
          else Inr (set_Manifest d ((Manifest (heap s d))(key := None))
                 (logged (DeleteObject (Bucket (heap s d)) key) s))
      | FileInfoService _ \<Rightarrow>
          if errs E (trace s) (OsRemove (location.Path (heap s d) @ ''/'' @ key))
          then failed Fatal (logged (OsRemove (location.Path (heap s d) @ ''/'' @ key)) s)
          else Inr (set_Manifest d ((Manifest (heap s d))(key := None))
                 (logged (OsRemove (location.Path (heap s d) @ ''/'' @ key)) s)))"
  by (simp add: Delete_def extern_def split: service.splits)

lemmas ex_defs = ex_env_def ex_state_def ex_source_def ex_dir_destination_def ex_s3_destination_def
  ex_file_def ex_fi_def
lemmas run_defs = Put_def Delete_def Open_def extern_def logged_def set_Manifest_def oneTimeSync_def

lemmas main_defs = main_def Before_def sync_def getLocations_def getLocation_def
  buildManifest_def Watch_def handleEvent_def constructFile_def c_Bool_def c_GlobalBool_def
  init_state_def zero_location_def zero_file_def dir_key_def watch_key_def TrimPrefix_def
  HasPrefix_def failed_def Create_def Write_def Remove_def

lemma andThen_assoc:
  "andThen (andThen r f) g = andThen r (\<lambda>x. andThen (f x) g)"
  by (cases r) simp_all

lemma andThen_prod_assoc:
  "andThen (andThen r (\<lambda>(x, y). f x y)) g = andThen r (\<lambda>(x, y). andThen (f x y) g)"
  by (cases r) (simp_all split: prod.splits)

section \<open>\<open>Put\<close> and the Manifest\<close>

text \<open>
  What a \<open>Put\<close> that returns has done to the store: on a bucket it has stored the
  descriptor under the key, on a directory it has changed nothing.
\<close>

lemma Put_s3_Manifest:
  assumes "Put E (Some d) key f s = Inr s'" and "Service (heap s d) = S3Service"
  shows "Manifest (heap s' d) = (Manifest (heap s d))(key \<mapsto> f)"
  using Put_heap [OF assms(1)] assms(2) by simp

lemma Put_directory_heap:
  assumes "Put E (Some d) key f s = Inr s'" and "Service (heap s d) = FileInfoService fi"
  shows "heap s' = heap s"
  using Put_heap [OF assms(1)] assms(2) by simp

text \<open>
  C2 (the program departs from it). \<open>Put\<close> of the key \<open>/a\<close> on the directory
  \<open>/tmp/dst\<close> opens the source file, creates \<open>/tmp/dst//a\<close> and copies the content,
  and returns with the Manifest of the directory still holding no entry for \<open>/a\<close>.
  The same \<open>Put\<close> on the bucket stores the descriptor under \<open>/a\<close>.
\<close>

theorem Put_directory_no_Manifest_entry:
  "Put ex_env (Some 1) ''/a'' (ex_file ''/tmp/src'' ''a'' 10) (ex_state ex_dir_destination)
     = Inr ((ex_state ex_dir_destination)
              \<lparr>trace := [OsOpen ''/tmp/src/a'', OsCreate ''/tmp/dst//a'',
                          IoCopy ''/tmp/dst//a'' ''/tmp/src/a'']\<rparr>)
   \<and> entry_after 1 ''/a''
        (Put ex_env (Some 1) ''/a'' (ex_file ''/tmp/src'' ''a'' 10)
           (ex_state ex_dir_destination)) = Inr None
   \<and> entry_after 1 ''/a''
        (Put ex_env (Some 1) ''/a'' (ex_file ''/tmp/src'' ''a'' 10)
           (ex_state ex_s3_destination)) = Inr (Some (ex_file ''/tmp/src'' ''a'' 10))"
  by (simp add: entry_after_def ex_defs run_defs)

section \<open>\<open>oneTimeSync\<close> on a bucket and on a directory\<close>

text \<open>
  With a bucket as destination the reconciliation does what is expected of it: the
  lemmas below give the destination Manifest after a run, its key set without and with
  the deletion flag, and that a second run changes nothing and makes no call.
\<close>

text \<open>Visiting the keys in alphabetical order is a \<open>range\<close> in the sense of \<open>range_ok\<close>.\<close>

lemma range_ok_sorted:
  "range_ok (E\<lparr>range_order := \<lambda>m. sorted_list_of_set (dom m)\<rparr>)"
  by (simp add: range_ok_def)

text \<open>One turn of each loop.\<close>

lemma push_loop_step:
  "push_loop E source destination (key # keys) s =
     (if pushed (Manifest (heap s source)) (Manifest (heap s destination)) key
      then andThen (Put E (Some destination) key (the (Manifest (heap s source) key)) s)
             (push_loop E source destination keys)
      else push_loop E source destination keys s)"
  by (simp add: pushed_def split: option.splits)

lemma push_loop_s3:
  assumes "source \<noteq> destination"
    and "Service (heap s destination) = S3Service"
    and "push_loop E source destination keys s = Inr s'"
  shows "Manifest (heap s' destination) =
           (\<lambda>k. if k \<in> set keys \<and>
                     pushed (Manifest (heap s source)) (Manifest (heap s destination)) k
                  then Manifest (heap s source) k else Manifest (heap s destination) k)
         \<and> heap s' source = heap s source
         \<and> Service (heap s' destination) = S3Service"
  using assms
proof (induction keys arbitrary: s)
  case Nil
  then show ?case by simp
next
  case (Cons key keys)
  let ?A = "Manifest (heap s source)" and ?B = "Manifest (heap s destination)"
  show ?case
  proof (cases "pushed ?A ?B key")
    case False
    with Cons.prems have "push_loop E source destination keys s = Inr s'"
      by (simp add: push_loop_step del: push_loop.simps)
    from Cons.IH [OF Cons.prems(1,2) this] False show ?thesis
      by (auto simp: fun_eq_iff)
  next
    case True
    then obtain f where f: "?A key = Some f" by (auto simp: pushed_def split: option.splits)
    from True Cons.prems have
      "andThen (Put E (Some destination) key (the (?A key)) s)
         (push_loop E source destination keys) = Inr s'"
      by (simp add: push_loop_step del: push_loop.simps)
    with f obtain s1 where
      put: "Put E (Some destination) key f s = Inr s1"
      and rest: "push_loop E source destination keys s1 = Inr s'"
      by (auto simp: andThen_eq_Inr)
    from Put_heap [OF put] Cons.prems(2)
    have h1: "heap s1 = (heap s)(destination := (heap s destination)\<lparr>Manifest := ?B(key \<mapsto> f)\<rparr>)"
      by simp
    with Cons.prems(1) have src: "heap s1 source = heap s source"
      and dst: "Manifest (heap s1 destination) = ?B(key \<mapsto> f)"
      and svc: "Service (heap s1 destination) = S3Service"
      using Cons.prems(2) by simp_all
    note ih = Cons.IH [OF Cons.prems(1) svc rest, unfolded src dst]
    from ih have m: "Manifest (heap s' destination) =
               (\<lambda>k. if k \<in> set keys \<and> pushed ?A (?B(key \<mapsto> f)) k then ?A k
                    else (?B(key \<mapsto> f)) k)"
      by (rule conjunct1)
    from ih have r: "heap s' source = heap s source" "Service (heap s' destination) = S3Service"
      by blast+
    have "\<not> pushed ?A (?B(key \<mapsto> f)) key" using f by (simp add: pushed_def)
    moreover have "\<And>k. k \<noteq> key \<Longrightarrow> pushed ?A (?B(key \<mapsto> f)) k = pushed ?A ?B k"
      by (simp add: pushed_def split: option.splits)
    ultimately show ?thesis using m r f True
      by (auto simp: fun_eq_iff)
  qed
qed

lemma push_loop_none_pushed:
  assumes "\<forall>k\<in>set keys. \<not> pushed (Manifest (heap s source)) (Manifest (heap s destination)) k"
  shows "push_loop E source destination keys s = Inr s"
  using assms by (induction keys) (simp_all only: push_loop.simps(1) push_loop_step list.set, simp_all)

lemma delete_loop_step:
  "delete_loop E source destination (key # keys) s =
     (if Manifest (heap s destination) key \<noteq> None \<and> Manifest (heap s source) key = None
      then andThen (Delete E (Some destination) key s) (delete_loop E source destination keys)
      else delete_loop E source destination keys s)"
  by (simp split: option.splits)

lemma delete_loop_Manifest:
  assumes "source \<noteq> destination"
    and "delete_loop E source destination keys s = Inr s'"
  shows "Manifest (heap s' destination) =
           (\<lambda>k. if k \<in> set keys \<and> Manifest (heap s source) k = None then None
                else Manifest (heap s destination) k)
         \<and> heap s' source = heap s source"
  using assms
proof (induction keys arbitrary: s)
  case Nil
  then show ?case by simp
next
  case (Cons key keys)
  let ?A = "Manifest (heap s source)" and ?B = "Manifest (heap s destination)"
  show ?case
  proof (cases "?B key \<noteq> None \<and> ?A key = None")
    case False
    with Cons.prems have "delete_loop E source destination keys s = Inr s'"
      by (auto simp add: delete_loop_step simp del: delete_loop.simps split: if_splits)
    from Cons.IH [OF Cons.prems(1) this] False show ?thesis
      by (auto simp: fun_eq_iff)
  next
    case True
    with Cons.prems have
      "andThen (Delete E (Some destination) key s) (delete_loop E source destination keys)
         = Inr s'"
      by (auto simp add: delete_loop_step simp del: delete_loop.simps split: if_splits)
    then obtain s1 where
      del: "Delete E (Some destination) key s = Inr s1"
      and rest: "delete_loop E source destination keys s1 = Inr s'"
      by (auto simp: andThen_eq_Inr)
    from Delete_heap [OF del]
    have h1: "heap s1 = (heap s)(destination := (heap s destination)\<lparr>Manifest := ?B(key := None)\<rparr>)"
      by simp
    with Cons.prems(1) have src: "heap s1 source = heap s source"
      and dst: "Manifest (heap s1 destination) = ?B(key := None)"
      by simp_all
    note ih = Cons.IH [OF Cons.prems(1) rest, unfolded src dst]
    from ih True show ?thesis
      by (auto simp: fun_eq_iff)
  qed
qed

lemma delete_loop_none_deleted:
  assumes "\<forall>k\<in>set keys. Manifest (heap s destination) k \<noteq> None
             \<longrightarrow> Manifest (heap s source) k \<noteq> None"
  shows "delete_loop E source destination keys s = Inr s"
  using assms
  by (induction keys) (simp_all only: delete_loop.simps(1) delete_loop_step list.set, auto)

lemma oneTimeSync_s3_keys:
  assumes "source \<noteq> destination"
    and "Service (heap s destination) = S3Service"
    and "set (range_order E (Manifest (heap s source))) = dom (Manifest (heap s source))"
    and "oneTimeSync E False source destination s = Inr s'"
  shows "dom (Manifest (heap s' destination)) =
           dom (Manifest (heap s source)) \<union> dom (Manifest (heap s destination))
         \<and> (\<forall>k f. Manifest (heap s source) k = Some f \<longrightarrow>
               (\<exists>g. Manifest (heap s' destination) k = Some g \<and> Size g = Size f))"
proof -
  let ?A = "Manifest (heap s source)" and ?B = "Manifest (heap s destination)"
  from assms(4) have "push_loop E source destination (range_order E ?A) s = Inr s'"
    by (simp add: oneTimeSync_def andThen_eq_Inr)
  from push_loop_s3 [OF assms(1,2) this] assms(3)
  have m: "Manifest (heap s' destination) = (\<lambda>k. if k \<in> dom ?A \<and> pushed ?A ?B k then ?A k else ?B k)"
    by simp
  have 1: "dom (Manifest (heap s' destination)) = dom ?A \<union> dom ?B"
    unfolding m by (auto simp: pushed_def dom_def split: option.splits if_splits)
  have 2: "\<exists>g. Manifest (heap s' destination) k = Some g \<and> Size g = Size f" if "?A k = Some f" for k f
    unfolding m using that by (auto simp: pushed_def dom_def split: option.splits)
  from 1 2 show ?thesis by blast
qed

lemma oneTimeSync_s3_run:
  assumes "source \<noteq> destination"
    and "Service (heap s destination) = S3Service"
    and "range_ok E"
    and "finite (dom (Manifest (heap s source)))"
    and "finite (dom (Manifest (heap s destination)))"
    and "oneTimeSync E del source destination s = Inr s'"
  shows "heap s' source = heap s source
       \<and> (\<forall>k. Manifest (heap s' destination) k =
             (if pushed (Manifest (heap s source)) (Manifest (heap s destination)) k
              then Manifest (heap s source) k
              else if del \<and> Manifest (heap s source) k = None then None
              else Manifest (heap s destination) k))"
proof -
  let ?A = "Manifest (heap s source)" and ?B = "Manifest (heap s destination)"
  from assms(6) obtain s1 where
    push: "push_loop E source destination (range_order E ?A) s = Inr s1"
    and rest: "(if del then delete_loop E source destination
                  (range_order E (Manifest (heap s1 destination))) s1 else Inr s1) = Inr s'"
    by (auto simp: oneTimeSync_def andThen_eq_Inr)
  from assms(3,4) have ra: "set (range_order E ?A) = dom ?A"
    by (simp add: range_ok_def)
  from push_loop_s3 [OF assms(1,2) push] ra
  have m1: "Manifest (heap s1 destination) = (\<lambda>k. if k \<in> dom ?A \<and> pushed ?A ?B k then ?A k else ?B k)"
    and src1: "heap s1 source = heap s source"
    by simp_all
  have p: "pushed ?A ?B k \<Longrightarrow> k \<in> dom ?A" for k
    by (auto simp: pushed_def split: option.splits)
  show ?thesis
  proof (cases del)
    case False
    with rest have "s' = s1" by simp
    with m1 src1 False p show ?thesis by auto
  next
    case True
    have "dom (Manifest (heap s1 destination)) \<subseteq> dom ?A \<union> dom ?B"
      unfolding m1 by (auto split: if_splits)
    with assms(4,5) have "finite (dom (Manifest (heap s1 destination)))"
      by (meson finite_UnI finite_subset)
    with assms(3) have r1: "set (range_order E (Manifest (heap s1 destination)))
                            = dom (Manifest (heap s1 destination))"
      by (simp add: range_ok_def)
    from True rest have "delete_loop E source destination
                  (range_order E (Manifest (heap s1 destination))) s1 = Inr s'" by simp
    from delete_loop_Manifest [OF assms(1) this] r1 src1
    have m': "Manifest (heap s' destination) =
           (\<lambda>k. if k \<in> dom (Manifest (heap s1 destination)) \<and> ?A k = None then None
                else Manifest (heap s1 destination) k)"
      and src': "heap s' source = heap s source"
      by simp_all
    show ?thesis
    proof (intro conjI allI)
      show "heap s' source = heap s source" by (rule src')
    next
      fix k
      show "Manifest (heap s' destination) k =
             (if pushed ?A ?B k then ?A k
              else if del \<and> ?A k = None then None else ?B k)"
        unfolding m' m1 using True p [of k] by (auto simp: dom_def)
    qed
  qed
qed

lemma oneTimeSync_s3_delete_keys:
  assumes "source \<noteq> destination"
    and "Service (heap s destination) = S3Service"
    and "range_ok E"
    and "finite (dom (Manifest (heap s source)))"
    and "finite (dom (Manifest (heap s destination)))"
    and "oneTimeSync E True source destination s = Inr s'"
  shows "dom (Manifest (heap s' destination)) = dom (Manifest (heap s source))"
  using oneTimeSync_s3_run [OF assms]
  by (auto simp: dom_def pushed_def split: option.splits if_splits)

lemma oneTimeSync_s3_idempotent:
  assumes "source \<noteq> destination"
    and "Service (heap s destination) = S3Service"
    and "range_ok E"
    and "finite (dom (Manifest (heap s source)))"
    and "finite (dom (Manifest (heap s destination)))"
    and "oneTimeSync E del source destination s = Inr s'"
  shows "oneTimeSync E del source destination s' = Inr s'"
proof -
  let ?A = "Manifest (heap s source)" and ?B = "Manifest (heap s destination)"
  let ?B' = "Manifest (heap s' destination)"
  note run = oneTimeSync_s3_run [OF assms]
  from run have src: "heap s' source = heap s source" by blast
  from run have m: "?B' k = (if pushed ?A ?B k then ?A k
              else if del \<and> ?A k = None then None else ?B k)" for k by blast
  have np: "\<not> pushed ?A ?B' k" for k
    unfolding m [abs_def] by (auto simp: pushed_def split: option.splits)
  have "push_loop E source destination (range_order E (Manifest (heap s' source))) s' = Inr s'"
    by (rule push_loop_none_pushed) (simp add: src np)
  moreover have "delete_loop E source destination (range_order E ?B') s' = Inr s'" if del
  proof (rule delete_loop_none_deleted, intro ballI impI)
    fix k assume "?B' k \<noteq> None"
    with m [of k] that show "Manifest (heap s' source) k \<noteq> None"
      unfolding src by (auto simp: pushed_def split: option.splits if_splits)
  qed
  ultimately show ?thesis
    by (simp add: oneTimeSync_def)
qed

text \<open>With a directory as destination the first loop leaves every Manifest as it was.\<close>

lemma push_loop_directory:
  assumes "Service (heap s destination) = FileInfoService fi"
    and "push_loop E source destination keys s = Inr s'"
  shows "heap s' = heap s"
  using assms
proof (induction keys arbitrary: s)
  case Nil
  then show ?case by simp
next
  case (Cons key keys)
  show ?case
  proof (cases "pushed (Manifest (heap s source)) (Manifest (heap s destination)) key")
    case False
    with Cons.prems have "push_loop E source destination keys s = Inr s'"
      by (simp add: push_loop_step del: push_loop.simps)
    from Cons.IH [OF Cons.prems(1) this] show ?thesis .
  next
    case True
    with Cons.prems obtain s1 where
      put: "Put E (Some destination) key (the (Manifest (heap s source) key)) s = Inr s1"
      and rest: "push_loop E source destination keys s1 = Inr s'"
      by (auto simp add: push_loop_step andThen_eq_Inr simp del: push_loop.simps)
    from Put_directory_heap [OF put Cons.prems(1)] have h: "heap s1 = heap s" .
    with Cons.prems(1) have "Service (heap s1 destination) = FileInfoService fi" by simp
    from Cons.IH [OF this rest] h show ?thesis by simp
  qed
qed

text \<open>
  C1 (the program departs from it). Source \<open>{/a: 10, /b: 5}\<close>, destination the
  directory \<open>/tmp/dst\<close> with \<open>{/b: 5, /c: 1}\<close>, deletion flag off. The run copies \<open>/a\<close>
  and nothing else, as it should, but the destination Manifest keeps the key set
  \<open>{/b, /c}\<close> and has no entry for \<open>/a\<close>, where \<open>{/a, /b, /c}\<close> is expected.
\<close>

theorem oneTimeSync_directory_keys:
  "trace_after (oneTimeSync ex_env False 0 1 (ex_state ex_dir_destination))
     = [OsOpen ''/tmp/src/a'', OsCreate ''/tmp/dst//a'', IoCopy ''/tmp/dst//a'' ''/tmp/src/a'']
   \<and> keys_after 0 (oneTimeSync ex_env False 0 1 (ex_state ex_dir_destination))
     = Inr {''/a'', ''/b''}
   \<and> keys_after 1 (oneTimeSync ex_env False 0 1 (ex_state ex_dir_destination))
     = Inr {''/b'', ''/c''}
   \<and> entry_after 1 ''/a'' (oneTimeSync ex_env False 0 1 (ex_state ex_dir_destination))
     = Inr None"
  by (auto simp: trace_after_def entry_after_def keys_after_def ex_defs run_defs)

text \<open>
  C6 (the program departs from it). The same run with the deletion flag on copies
  \<open>/a\<close> and removes \<open>/c\<close>, and the destination Manifest ends with the key set \<open>{/b}\<close>,
  while the source has \<open>{/a, /b}\<close>.
\<close>

theorem oneTimeSync_directory_delete_keys:
  "trace_after (oneTimeSync ex_env True 0 1 (ex_state ex_dir_destination))
     = [OsOpen ''/tmp/src/a'', OsCreate ''/tmp/dst//a'', IoCopy ''/tmp/dst//a'' ''/tmp/src/a'',
        OsRemove ''/tmp/dst//c'']
   \<and> keys_after 0 (oneTimeSync ex_env True 0 1 (ex_state ex_dir_destination))
     = Inr {''/a'', ''/b''}
   \<and> keys_after 1 (oneTimeSync ex_env True 0 1 (ex_state ex_dir_destination)) = Inr {''/b''}"
  by (auto simp: trace_after_def keys_after_def ex_defs run_defs)

text \<open>
  C3 (the program departs from it). The same run with the deletion flag off, and a
  second run right after it: the second run copies \<open>/a\<close> again.
\<close>

theorem oneTimeSync_directory_twice:
  "trace_after (oneTimeSync ex_env False 0 1 (ex_state ex_dir_destination))
     = [OsOpen ''/tmp/src/a'', OsCreate ''/tmp/dst//a'', IoCopy ''/tmp/dst//a'' ''/tmp/src/a'']
   \<and> trace_after (andThen (oneTimeSync ex_env False 0 1 (ex_state ex_dir_destination))
                  (oneTimeSync ex_env False 0 1))
     = [OsOpen ''/tmp/src/a'', OsCreate ''/tmp/dst//a'', IoCopy ''/tmp/dst//a'' ''/tmp/src/a'',
        OsOpen ''/tmp/src/a'', OsCreate ''/tmp/dst//a'', IoCopy ''/tmp/dst//a'' ''/tmp/src/a'']"
  by (simp add: trace_after_def ex_defs run_defs)

section \<open>Relative keys do not round-trip\<close>

text \<open>
  C8 (the program departs from it). The program run on \<open>/tmp/bar/\<close> and \<open>/tmp/dst\<close>,
  with a \<open>Create\<close> event for \<open>/tmp/bar/foo\<close>. The watcher derives the key \<open>foo\<close> from
  that name; \<open>Put\<close> joins it to the root of the destination as \<open>/tmp/dst/foo\<close>; and
  from that name the directory manifest builder of the destination derives \<open>/foo\<close>,
  not \<open>foo\<close>. For the one file \<open>/tmp/bar/foo\<close> the source Manifest ends with the two
  keys \<open>/foo\<close> (from its builder) and \<open>foo\<close> (from the watcher), and the destination
  Manifest, built from a directory holding \<open>foo\<close>, has the key \<open>/foo\<close>.
\<close>

theorem watcher_key_does_not_come_back:
  "watch_key ''/tmp/bar/'' ''/tmp/bar/foo'' = ''foo''
   \<and> dir_key ex_bar_env ''/tmp/dst'' ''/tmp/dst/foo'' = ''/foo''
   \<and> trace_after (main ex_bar_env (ex_context ''/tmp/bar/'' ''/tmp/dst'')
                    [Event ''/tmp/bar/foo'' Create])
     = [OsLstat ''/tmp/bar/'', OsLstat ''/tmp/dst'', IoutilReadDir ''/tmp/bar/'',
        IoutilReadDir ''/tmp/dst'', NewWatcher, OsLstat ''/tmp/bar/foo'',
        OsStat ''/tmp/bar/foo'', OsOpen ''/tmp/bar/foo'', OsCreate ''/tmp/dst/foo'',
        IoCopy ''/tmp/dst/foo'' ''/tmp/bar/foo'']
   \<and> keys_after 0 (main ex_bar_env (ex_context ''/tmp/bar/'' ''/tmp/dst'')
                    [Event ''/tmp/bar/foo'' Create]) = Inr {''/foo'', ''foo''}
   \<and> keys_after 1 (main ex_bar_env (ex_context ''/tmp/bar/'' ''/tmp/dst'')
                    [Event ''/tmp/bar/foo'' Create]) = Inr {''/foo''}"
  by (auto simp: keys_after_def trace_after_def main_defs ex_bar_env_def ex_context_def
        ex_dir_info_def ex_defs run_defs)

section \<open>Events that \<open>handleEvent\<close> has no case for\<close>

text \<open>
  C4 (amended). On a source location, an event whose operation is none of \<open>Create\<close>,
  \<open>Write\<close>, \<open>Remove\<close> (a rename, a chmod, or several bits at once) is dropped:
  \<open>handleEvent\<close> returns normally and leaves the state as it was.
\<close>

theorem handleEvent_other_op:
  assumes "Type (heap s a) = Source"
    and "evOp ev \<noteq> Create" and "evOp ev \<noteq> Write" and "evOp ev \<noteq> Remove"
  shows "handleEvent E a key ev s = Inr s"
  using assms by (simp add: handleEvent_def)

theorem handleEvent_other_op_witness:
  "handleEvent ex_env 0 ''/a'' (Event ''/tmp/src/a'' Rename) (ex_state ex_dir_destination)
     = Inr (ex_state ex_dir_destination)"
  using handleEvent_other_op [of "ex_state ex_dir_destination" 0 "Event ''/tmp/src/a'' Rename" ex_env "''/a''"]
  by (simp add: ex_state_def ex_source_def Create_def Write_def Remove_def Rename_def)

text \<open>
  C4 as stated fails: a chmod event on the source is not fatal; \<open>handleEvent\<close> returns
  the state it was given.
\<close>

theorem handleEvent_chmod_not_fatal:
  "handleEvent ex_env 0 ''/a'' (Event ''/tmp/src/a'' Chmod) (ex_state ex_dir_destination)
     = Inr (ex_state ex_dir_destination)"
  by (simp add: handleEvent_def ex_state_def ex_source_def Create_def Write_def Remove_def
        Chmod_def)

section \<open>Descriptors built from events\<close>

text \<open>
  C9. For a \<open>Create\<close> or \<open>Write\<close> event, the descriptor that \<open>constructFile\<close> builds has
  \<open>Size\<close> 0, whatever size \<open>os.Stat\<close> reports. So \<open>handleEvent\<close> puts into the source
  Manifest only entries of size 0: every entry it leaves there was there before or has
  size 0, and after a \<open>Create\<close> event the entry of the key has size 0.
\<close>

theorem event_descriptor_size_zero:
  assumes "evOp ev = Create \<or> evOp ev = Write"
  shows "(\<forall>f s1. constructFile E (EventInput ev) s = Inr (f, s1) \<longrightarrow> Size f = 0)
       \<and> (\<forall>s'. handleEvent E a key ev s = Inr s' \<longrightarrow>
             (\<forall>k g. Manifest (heap s' a) k = Some g \<longrightarrow>
                      Manifest (heap s a) k = Some g \<or> Size g = 0)
           \<and> (evOp ev = Create \<longrightarrow> (\<exists>g. Manifest (heap s' a) key = Some g \<and> Size g = 0)))"
proof (intro conjI allI impI)
  fix f s1 assume "constructFile E (EventInput ev) s = Inr (f, s1)"
  then show "Size f = 0" by (simp add: constructFile_event)
next
  fix s' k g
  assume run: "handleEvent E a key ev s = Inr s'"
    and g: "Manifest (heap s' a) k = Some g"
  show "Manifest (heap s a) k = Some g \<or> Size g = 0"
  proof (cases "evOp ev = Create")
    case True
    with run obtain f s1 where cf: "constructFile E (EventInput ev) s = Inr (f, s1)"
      and put: "Put E (Destination (heap s1 a)) key f
                  (set_Manifest a ((Manifest (heap s1 a))(key \<mapsto> f)) s1) = Inr s'"
      by (auto simp: handleEvent_def andThen_eq_Inr Let_def split: if_splits)
    from cf have f0: "Size f = 0" and h1: "heap s1 = heap s"
      by (simp_all add: constructFile_event)
    from Put_heap [OF put] g h1 f0 show ?thesis
      by (auto simp: set_Manifest_def split: if_splits)
  next
    case False
    with assms have w: "evOp ev = Write" by simp
    with run False obtain f s1 where cf: "constructFile E (EventInput ev) s = Inr (f, s1)"
      and put: "Put E (Destination (heap s1 a)) key f s1 = Inr s'"
      by (auto simp: handleEvent_def andThen_eq_Inr split: if_splits)
    from cf have f0: "Size f = 0" and h1: "heap s1 = heap s"
      by (simp_all add: constructFile_event)
    from Put_heap [OF put] g h1 f0 show ?thesis
      by (auto split: if_splits)
  qed
next
  fix s'
  assume run: "handleEvent E a key ev s = Inr s'" and c: "evOp ev = Create"
  then obtain f s1 where cf: "constructFile E (EventInput ev) s = Inr (f, s1)"
    and put: "Put E (Destination (heap s1 a)) key f
                (set_Manifest a ((Manifest (heap s1 a))(key \<mapsto> f)) s1) = Inr s'"
    by (auto simp: handleEvent_def andThen_eq_Inr Let_def split: if_splits)
  from cf have f0: "Size f = 0" by (simp add: constructFile_event)
  from Put_heap [OF put] have "Manifest (heap s' a) key = Some f"
    by (auto simp: set_Manifest_def split: if_splits)
  with f0 show "\<exists>g. Manifest (heap s' a) key = Some g \<and> Size g = 0" by blast
qed

theorem event_descriptor_size_zero_witness:
  "(evOp (Event ''/tmp/src/x'' Create) = Create \<or> evOp (Event ''/tmp/src/x'' Create) = Write)
   \<and> fiSize (ex_fi ''x'' 10) = 10
   \<and> (\<exists>s'. handleEvent ex_env 0 ''/x'' (Event ''/tmp/src/x'' Create)
               (ex_state ex_s3_destination) = Inr s'
           \<and> (\<exists>g. Manifest (heap s' 0) ''/x'' = Some g \<and> Size g = 0
                   \<and> Object g = FileInfoObject (ex_fi ''x'' 10)))"
  using event_descriptor_size_zero
    [where ev = "Event ''/tmp/src/x'' Create" and E = ex_env and a = 0 and key = "''/x''"
       and s = "ex_state ex_s3_destination"]
  by (simp add: handleEvent_def constructFile_def Put_def Open_def extern_def zero_file_def
        ex_env_def ex_state_def ex_source_def ex_s3_destination_def ex_fi_def set_Manifest_def
        logged_def)

section \<open>\<open>Write\<close> events against \<open>Create\<close> events\<close>

text \<open>
  C5 (amended). Handling a \<open>Write\<close> event for a file makes the same calls, leaves the
  destination in the same state and fails in the same way as handling a \<open>Create\<close> event
  for it, but it leaves the source Manifest as it was, whereas \<open>Create\<close> stores the new
  descriptor under the key: the outcome of \<open>Write\<close> is the outcome of \<open>Create\<close> with the
  source Manifest put back. (The source must not be its own destination.)
\<close>

theorem written_like_created_but_source_manifest:
  assumes "Destination (heap s a) \<noteq> Some a"
  shows "handleEvent E a key (Event n Write) s =
           andThen (handleEvent E a key (Event n Create) s)
             (\<lambda>s1. Inr (set_Manifest a (Manifest (heap s a)) s1))"
proof (cases "Type (heap s a) = Source")
  case False
  then show ?thesis by (simp add: handleEvent_def)
next
  case True
  from constructFile_event_cases [of E "Event n Write" s]
  consider "constructFile E (EventInput (Event n Write)) s = failed Fatal (logged (OsStat n) s)"
    | f where "constructFile E (EventInput (Event n Write)) s = Inr (f, logged (OsStat n) s)"
    by auto
  then show ?thesis
  proof cases
    case 1
    then have "constructFile E (EventInput (Event n Create)) s
                 = failed Fatal (logged (OsStat n) s)"
      by (auto simp: constructFile_def split: option.splits)
    with 1 True show ?thesis
      by (simp add: handleEvent_def Create_def Write_def)
  next
    case 2
    then have c: "constructFile E (EventInput (Event n Create)) s = Inr (f, logged (OsStat n) s)"
      by (auto simp: constructFile_def split: option.splits)
    let ?s1 = "logged (OsStat n) s"
    let ?p = "Destination (heap s a)"
    have w: "handleEvent E a key (Event n Write) s = Put E ?p key f ?s1"
      using 2 True by (simp add: handleEvent_def Create_def Write_def)
    have cr: "handleEvent E a key (Event n Create) s =
                andThen (Put E ?p key f ?s1)
                  (\<lambda>s'. Inr (set_Manifest a ((Manifest (heap s a))(key \<mapsto> f)) s'))"
      using c True assms
      by (simp add: handleEvent_def Create_def Put_set_Manifest_other)
    show ?thesis
    proof (cases "Put E ?p key f ?s1")
      case (Inl e)
      with w cr show ?thesis by simp
    next
      case (Inr s')
      from Put_heap_other [OF Inr assms [simplified]] have "heap s' a = heap s a"
        using assms by simp
      then have "set_Manifest a (Manifest (heap s a)) s' = s'"
        by (metis set_Manifest_same)
      with w cr Inr show ?thesis by simp
    qed
  qed
qed

theorem written_like_created_witness:
  "Destination (heap (ex_state ex_s3_destination) 0) \<noteq> Some 0
   \<and> (\<exists>s'. handleEvent ex_env 0 ''/x'' (Event ''/tmp/src/x'' Write)
               (ex_state ex_s3_destination) = Inr s'
            \<and> handleEvent ex_env 0 ''/x'' (Event ''/tmp/src/x'' Create)
               (ex_state ex_s3_destination)
              = Inr (set_Manifest 0
                  ((Manifest (heap s' 0))
                     (''/x'' \<mapsto> zero_file\<lparr>Name := ''x'', file_t.Path := ''/tmp/src'',
                                    Object := FileInfoObject (ex_fi ''x'' 10)\<rparr>)) s'))"
  using written_like_created_but_source_manifest
    [where E = ex_env and a = 0 and key = "''/x''" and n = "''/tmp/src/x''"
       and s = "ex_state ex_s3_destination"]
  by (simp add: handleEvent_def constructFile_def Put_def Open_def extern_def zero_file_def
        ex_env_def ex_state_def ex_source_def ex_s3_destination_def ex_fi_def set_Manifest_def
        logged_def Create_def Write_def fun_upd_twist)

text \<open>
  C5 as stated fails: for a key the source Manifest does not hold, the Manifest has no
  entry for it after a \<open>Write\<close> event and has one after a \<open>Create\<close> event.
\<close>

theorem written_not_like_created:
  "entry_after 0 ''/x''
     (handleEvent ex_env 0 ''/x'' (Event ''/tmp/src/x'' Write) (ex_state ex_s3_destination))
     = Inr None
   \<and> entry_after 0 ''/x''
     (handleEvent ex_env 0 ''/x'' (Event ''/tmp/src/x'' Create) (ex_state ex_s3_destination))
     = Inr (Some \<lparr>Name = ''x'', Path = ''/tmp/src'', LastModified = 0, Size = 0,
                  Object = FileInfoObject (ex_fi ''x'' 10)\<rparr>)"
  by (simp add: entry_after_def handleEvent_def constructFile_def Put_def Open_def extern_def
        zero_file_def ex_env_def ex_state_def ex_source_def ex_s3_destination_def ex_fi_def
        set_Manifest_def logged_def Create_def Write_def)

section \<open>\<open>Remove\<close> events\<close>

text \<open>
  \<open>handleEvent\<close> itself, given a \<open>Remove\<close> event for a key \<open>y\<close> on the source, makes
  exactly one call, the deletion of \<open>y\<close> at the destination. When the backend accepts
  it, \<open>y\<close> is taken out of both Manifests and nothing else changes; when the backend
  refuses it, the program ends with \<open>log.Fatal\<close>.
\<close>

lemma handleEvent_Remove:
  assumes "Type (heap s a) = Source"
    and "Destination (heap s a) = Some d"
    and "evOp ev = Remove"
    and "Service (heap s d) \<noteq> NoService"
  shows "handleEvent E a y ev s =
           (if errs E (trace s) (delete_call (heap s d) y)
            then Inl (Fatal, trace s @ [delete_call (heap s d) y])
            else Inr (set_Manifest a ((Manifest (heap s a))(y := None))
                   (set_Manifest d ((Manifest (heap s d))(y := None))
                      (logged (delete_call (heap s d) y) s))))"
  using assms
  by (cases "Service (heap s d)"; cases "a = d")
     (auto simp: handleEvent_def Delete_Some_eq delete_call_def Create_def Write_def Remove_def
        failed_def)

text \<open>
  Inside \<open>Watch\<close> the event is preceded by \<open>os.Lstat\<close> of its name, whose error is
  dropped. When that fails, as it does for a file that is gone, \<open>fi.IsDir()\<close> on the nil
  \<open>fi\<close> ends the program with a panic and \<open>handleEvent\<close> is not called.
\<close>

lemma watch_loop_Lstat_fails:
  assumes "os_Lstat E (trace s) (evName ev) = None"
  shows "watch_loop E a (ev # evs) s = Inl (Panic, trace s @ [OsLstat (evName ev)])"
  using assms by (simp add: failed_def)

text \<open>
  C7 (the program departs from it). The program run on \<open>/tmp/src\<close> and \<open>/tmp/dst\<close>,
  both holding the file \<open>a\<close>: the source Manifest has the key \<open>/a\<close>. Then
  \<open>/tmp/src/a\<close> is removed and the watcher delivers the \<open>Remove\<close> event for it. The
  program ends with a panic right after \<open>os.Lstat\<close> of the name: no deletion is issued
  at the destination, and \<open>/a\<close> is never taken out of the source Manifest. The same
  happens in the loop of \<open>Watch\<close> started on the Manifests of the concrete run above.
\<close>

theorem removed_event_panics_in_Watch:
  "keys_after 0 (main ex_gone_env (ex_context ''/tmp/src'' ''/tmp/dst'') []) = Inr {''/a''}
   \<and> main ex_gone_env (ex_context ''/tmp/src'' ''/tmp/dst'') [Event ''/tmp/src/a'' Remove]
     = Inl (Panic, [OsLstat ''/tmp/src'', OsLstat ''/tmp/dst'', IoutilReadDir ''/tmp/src'',
                    IoutilReadDir ''/tmp/dst'', NewWatcher, OsLstat ''/tmp/src/a''])
   \<and> watch_loop ex_gone_env 0 [Event ''/tmp/src/a'' Remove] (ex_state ex_dir_destination)
     = Inl (Panic, [OsLstat ''/tmp/src/a''])"
  by (simp add: keys_after_def main_defs ex_gone_env_def ex_context_def ex_dir_info_def
        ex_defs run_defs)

section \<open>The package variable \<open>noop\<close>\<close>

text \<open>
  No function reads \<open>noop\<close>: each one, started with \<open>noop\<close> set to \<open>b\<close>, does what it
  does otherwise and leaves \<open>noop\<close> set to \<open>b\<close>.
\<close>

lemma logged_noop: "logged c (s\<lparr>noop := b\<rparr>) = (logged c s)\<lparr>noop := b\<rparr>"
  by (simp add: logged_def)

lemma set_Manifest_noop: "set_Manifest a m (s\<lparr>noop := b\<rparr>) = (set_Manifest a m s)\<lparr>noop := b\<rparr>"
  by (simp add: set_Manifest_def)

lemma extern_noop:
  "extern E c (s\<lparr>noop := b\<rparr>) = andThen (extern E c s) (\<lambda>s'. Inr (s'\<lparr>noop := b\<rparr>))"
  by (simp add: extern_def logged_noop)

lemma Open_noop:
  "Open E f (s\<lparr>noop := b\<rparr>) = andThen (Open E f s) (\<lambda>(r, s'). Inr (r, s'\<lparr>noop := b\<rparr>))"
  by (simp add: Open_def extern_def logged_noop split: object.splits)

lemma Put_noop:
  "Put E p key f (s\<lparr>noop := b\<rparr>) = andThen (Put E p key f s) (\<lambda>s'. Inr (s'\<lparr>noop := b\<rparr>))"
proof (cases "Open E f s")
  case (Inl e)
  then show ?thesis by (simp add: Put_def Open_noop)
next
  case (Inr x)
  obtain reader s1 where x: "x = (reader, s1)" by (cases x)
  show ?thesis
  proof (cases p)
    case None
    with Inr x show ?thesis by (simp add: Put_def Open_noop)
  next
    case (Some d)
    show ?thesis
    proof (cases "Service (heap s1 d)")
      case NoService
      with Inr x Some show ?thesis by (simp add: Put_def Open_noop)
    next
      case S3Service
      with Inr x Some show ?thesis
        by (simp add: Put_def Open_noop extern_def logged_noop set_Manifest_noop)
    next
      case (FileInfoService fi)
      with Inr x Some show ?thesis
        by (cases reader) (simp_all add: Put_def Open_noop extern_def logged_noop)
    qed
  qed
qed

lemma Delete_noop:
  "Delete E p key (s\<lparr>noop := b\<rparr>) = andThen (Delete E p key s) (\<lambda>s'. Inr (s'\<lparr>noop := b\<rparr>))"
  by (simp add: Delete_def extern_def logged_noop set_Manifest_noop
      split: option.splits service.splits)

lemma push_loop_noop:
  "push_loop E source destination keys (s\<lparr>noop := b\<rparr>) =
     andThen (push_loop E source destination keys s) (\<lambda>s'. Inr (s'\<lparr>noop := b\<rparr>))"
proof (induction keys arbitrary: s)
  case Nil
  show ?case by simp
next
  case (Cons key keys)
  show ?case
    by (simp add: Put_noop Cons.IH andThen_assoc split: option.splits)
qed

lemma delete_loop_noop:
  "delete_loop E source destination keys (s\<lparr>noop := b\<rparr>) =
     andThen (delete_loop E source destination keys s) (\<lambda>s'. Inr (s'\<lparr>noop := b\<rparr>))"
proof (induction keys arbitrary: s)
  case Nil
  show ?case by simp
next
  case (Cons key keys)
  show ?case
    by (simp add: Delete_noop Cons.IH andThen_assoc split: option.splits)
qed

lemma oneTimeSync_noop:
  "oneTimeSync E del source destination (s\<lparr>noop := b\<rparr>) =
     andThen (oneTimeSync E del source destination s) (\<lambda>s'. Inr (s'\<lparr>noop := b\<rparr>))"
  by (cases del;
      cases "push_loop E source destination (range_order E (Manifest (heap s source))) s")
     (simp_all add: oneTimeSync_def push_loop_noop delete_loop_noop)

lemma constructFile_noop:
  "constructFile E i (s\<lparr>noop := b\<rparr>) =
     andThen (constructFile E i s) (\<lambda>(f, s'). Inr (f, s'\<lparr>noop := b\<rparr>))"
  by (simp add: constructFile_def logged_noop split: input.splits option.splits)

lemma handleEvent_noop:
  "handleEvent E a key ev (s\<lparr>noop := b\<rparr>) =
     andThen (handleEvent E a key ev s) (\<lambda>s'. Inr (s'\<lparr>noop := b\<rparr>))"
proof (cases "constructFile E (EventInput ev) s")
  case (Inl e)
  then show ?thesis
    by (simp add: handleEvent_def constructFile_noop Delete_noop set_Manifest_noop andThen_assoc)
next
  case (Inr x)
  obtain f s1 where "x = (f, s1)" by (cases x)
  with Inr show ?thesis
    by (simp add: handleEvent_def constructFile_noop Delete_noop Put_noop set_Manifest_noop
          andThen_assoc Let_def)
qed

lemma buildDir_noop:
  "buildDirManifest E a dir l (s\<lparr>noop := b\<rparr>) =
     andThen (buildDirManifest E a dir l s) (\<lambda>s'. Inr (s'\<lparr>noop := b\<rparr>))"
  "buildDirFiles E a dir files (s\<lparr>noop := b\<rparr>) =
     andThen (buildDirFiles E a dir files s) (\<lambda>s'. Inr (s'\<lparr>noop := b\<rparr>))"
proof (induction E a dir l s and E a dir files s rule: buildDirManifest_buildDirFiles.induct)
  case (1 E a dir s)
  show ?case by (simp add: logged_noop)
next
  case (2 E a dir files s)
  then show ?case by (simp add: logged_noop)
next
  case (3 E a dir s)
  show ?case by simp
next
  case (4 E a dir fi sub files s)
  show ?case
  proof (cases "fiIsDir fi")
    case True
    with 4(1) [OF True] 4(2) [OF True] show ?thesis
      by (simp add: andThen_assoc)
  next
    case False
    with 4(3) [OF False] show ?thesis by (simp add: set_Manifest_noop)
  qed
qed

lemma list_page_noop:
  "list_page E a obs (s\<lparr>noop := b\<rparr>) =
     andThen (list_page E a obs s) (\<lambda>s'. Inr (s'\<lparr>noop := b\<rparr>))"
proof (induction obs arbitrary: s)
  case Nil
  show ?case by simp
next
  case (Cons ob obs)
  show ?case
  proof (cases "constructFile E (S3ObjectInput ob) s")
    case (Inl e)
    then show ?thesis by (simp add: constructFile_noop)
  next
    case (Inr x)
    obtain f s1 where "x = (f, s1)" by (cases x)
    with Inr show ?thesis
      by (simp add: constructFile_noop set_Manifest_noop Cons.IH split: option.splits)
  qed
qed

lemma list_pages_noop:
  "list_pages E a pages (s\<lparr>noop := b\<rparr>) =
     andThen (list_pages E a pages s) (\<lambda>s'. Inr (s'\<lparr>noop := b\<rparr>))"
  by (induction pages arbitrary: s) (simp_all add: list_page_noop andThen_assoc)

lemma buildManifest_noop:
  "buildManifest E a (s\<lparr>noop := b\<rparr>) =
     andThen (buildManifest E a s) (\<lambda>s'. Inr (s'\<lparr>noop := b\<rparr>))"
  by (simp add: buildManifest_def Let_def set_Manifest_noop list_pages_noop extern_noop
        buildDir_noop andThen_assoc split: service.splits)

lemma watch_loop_noop:
  "watch_loop E a evs (s\<lparr>noop := b\<rparr>) =
     andThen (watch_loop E a evs s) (\<lambda>s'. Inr (s'\<lparr>noop := b\<rparr>))"
proof (induction evs arbitrary: s)
  case Nil
  show ?case by simp
next
  case (Cons ev evs)
  have w: "s1\<lparr>noop := b, watched := w\<rparr> = s1\<lparr>watched := w, noop := b\<rparr>" for s1 :: state and w
    by simp
  show ?case
    by (simp add: logged_noop handleEvent_noop Cons.IH andThen_assoc Let_def w
          split: option.splits)
qed

lemma Watch_noop:
  "Watch E a evs (s\<lparr>noop := b\<rparr>) =
     andThen (Watch E a evs s) (\<lambda>s'. Inr (s'\<lparr>noop := b\<rparr>))"
proof -
  have w: "s1\<lparr>noop := b, watched := w\<rparr> = s1\<lparr>watched := w, noop := b\<rparr>" for s1 :: state and w
    by simp
  show ?thesis
    by (simp add: Watch_def Let_def logged_noop watch_loop_noop w split: dirlisting.splits)
qed

lemma getLocation_noop:
  "getLocation E i param (s\<lparr>noop := b\<rparr>) =
     andThen (getLocation E i param s) (\<lambda>s'. Inr (s'\<lparr>noop := b\<rparr>))"
  by (simp add: getLocation_def Let_def extern_def logged_noop split: option.splits prod.splits)

lemma getLocations_noop:
  "getLocations E c (s\<lparr>noop := b\<rparr>) =
     andThen (getLocations E c s) (\<lambda>(source, destination, s'). Inr (source, destination, s'\<lparr>noop := b\<rparr>))"
proof (cases "\<exists>p0 p1. Args c = [p0, p1]")
  case False
  then have "getLocations E c s' = failed Fatal s'" for s'
    by (auto simp: getLocations_def split: list.splits)
  then show ?thesis by simp
next
  case True
  then obtain p0 p1 where a: "Args c = [p0, p1]" by blast
  have h: "s\<lparr>noop := b, heap := h\<rparr> = s\<lparr>heap := h, noop := b\<rparr>" for s :: state and h
    by simp
  show ?thesis
    by (simp add: getLocations_def a h getLocation_noop andThen_assoc)
qed

lemma sync_noop:
  "sync E c evs (s\<lparr>noop := b\<rparr>) = andThen (sync E c evs s) (\<lambda>s'. Inr (s'\<lparr>noop := b\<rparr>))"
  by (simp add: sync_def getLocations_noop buildManifest_noop oneTimeSync_noop Watch_noop
        andThen_assoc andThen_prod_assoc split_def)

lemma sync_flag_noop:
  "sync E (c\<lparr>flag_noop := x\<rparr>) evs s = sync E c evs s"
  by (simp add: sync_def getLocations_def c_Bool_def)

text \<open>
  C10. For every environment, command line and sequence of events, \<open>main\<close> run with
  the \<open>noop\<close> flag makes the same calls, in the same order, as \<open>main\<close> run without it:
  it ends in the same way, with the same Manifests and the same watched paths, and only
  the variable \<open>noop\<close> itself differs.
\<close>

theorem noop_never_consulted:
  "main E (c\<lparr>flag_noop := True\<rparr>) evs =
     andThen (main E (c\<lparr>flag_noop := False\<rparr>) evs) (\<lambda>s. Inr (s\<lparr>noop := True\<rparr>))
   \<and> trace_after (main E (c\<lparr>flag_noop := True\<rparr>) evs)
       = trace_after (main E (c\<lparr>flag_noop := False\<rparr>) evs)"
proof -
  have eq: "main E (c\<lparr>flag_noop := True\<rparr>) evs =
     andThen (main E (c\<lparr>flag_noop := False\<rparr>) evs) (\<lambda>s. Inr (s\<lparr>noop := True\<rparr>))"
    by (simp add: main_def Before_def c_Bool_def c_GlobalBool_def sync_flag_noop sync_noop)
  have "trace_after (andThen r (\<lambda>s. Inr (s\<lparr>noop := True\<rparr>))) = trace_after r"
    for r :: "failure + state"
    by (cases r) (simp_all add: trace_after_def)
  with eq show ?thesis by simp
qed

end
